theory Spec2Isabelle
  imports Complex_Main
begin

section \<open>Transformer utilities: masks and greedy decoding\<close>

text \<open>
  A shallow embedding of \<^verbatim>\<open>src/utils/transformer_utils.py\<close>.

  Tensors are nested lists: a tensor of shape \<open>(batch, seq_len)\<close> is a list of rows, a
  mask of shape \<open>(batch, 1, 1, seq_len)\<close> four lists deep. Token ids are Python
  integers (\<open>int\<close>). The masks have dtype \<^verbatim>\<open>float32\<close> but only ever hold \<open>0\<close> and
  \<open>1\<close>, on which the operations used here (\<open>1 - x\<close>, \<open>max\<close>) are exact; their entries
  are real numbers here.

  The learning-rate schedule \<^verbatim>\<open>CustomSchedule\<close> is not embedded: its value is the
  result of \<^verbatim>\<open>float32\<close> roundings (of \<^verbatim>\<open>tf.math.rsqrt\<close>, a product and a minimum),
  and a reading over the real numbers has properties the rounded values lack.
\<close>

subsection \<open>Mask builder\<close>

type_synonym tensor2 = "real list list"
type_synonym tensor4 = "real list list list list"

text \<open>
  \<^verbatim>\<open>seq = tf.cast(tf.math.equal(seq, 0), tf.float32)\<close>, then
  \<^verbatim>\<open>seq[:, tf.newaxis, tf.newaxis, :]\<close>: every row of the batch is wrapped in two new
  axes of size one.
\<close>

definition create_padding_mask :: "int list list \<Rightarrow> tensor4" where
  "create_padding_mask seq =
     (let seq' = map (map (\<lambda>x. if x = 0 then (1::real) else 0)) seq
      in map (\<lambda>row. [[row]]) seq')"

text \<open>\<^verbatim>\<open>tf.ones((size, size))\<close>.\<close>

definition tf_ones :: "nat \<Rightarrow> nat \<Rightarrow> tensor2" where
  "tf_ones r c = replicate r (replicate c 1)"

text \<open>
  \<^verbatim>\<open>tf.linalg.band_part(input, num_lower, num_upper)\<close> keeps the entry at row \<open>m\<close>,
  column \<open>n\<close> when
  \<^verbatim>\<open>(num_lower < 0 || (m-n) <= num_lower) && (num_upper < 0 || (n-m) <= num_upper)\<close>
  and sets it to zero otherwise.
\<close>

definition in_band :: "int \<Rightarrow> int \<Rightarrow> nat \<Rightarrow> nat \<Rightarrow> bool" where
  "in_band num_lower num_upper m n \<longleftrightarrow>
     (num_lower < 0 \<or> int m - int n \<le> num_lower) \<and>
     (num_upper < 0 \<or> int n - int m \<le> num_upper)"

definition band_part :: "tensor2 \<Rightarrow> int \<Rightarrow> int \<Rightarrow> tensor2" where
  "band_part t num_lower num_upper =
     map (\<lambda>(m, row). map (\<lambda>(n, x). if in_band num_lower num_upper m n then x else 0)
                        (enumerate 0 row))
         (enumerate 0 t)"

text \<open>\<^verbatim>\<open>mask = 1 - tf.linalg.band_part(tf.ones((size, size)), -1, 0)\<close>.\<close>

definition create_look_ahead_mask :: "nat \<Rightarrow> tensor2" where
  "create_look_ahead_mask sz =
     map (map (\<lambda>x. 1 - x)) (band_part (tf_ones sz sz) (- 1) 0)"

text \<open>
  \<^verbatim>\<open>tf.shape(tar)[1]\<close>: the width of a batch of rows. A batch is rectangular, so the
  width is the length of its first row (a batch without rows is given width zero).
\<close>

definition tf_shape1 :: "'a list list \<Rightarrow> nat" where
  "tf_shape1 t = (case t of [] \<Rightarrow> 0 | r # _ \<Rightarrow> length r)"

text \<open>
  \<^verbatim>\<open>tf.maximum(dec_target_padding_mask, look_ahead_mask)\<close> on shapes
  \<open>(batch, 1, 1, L)\<close> and \<open>(L, L)\<close>: broadcasting repeats the single key row of the
  padding mask along the query axis and the look-ahead matrix along the batch and
  head axes; the result has shape \<open>(batch, 1, L, L)\<close>.
\<close>

definition tf_maximum :: "tensor4 \<Rightarrow> tensor2 \<Rightarrow> tensor4" where
  "tf_maximum p m =
     map (\<lambda>b. map (\<lambda>h. concat (map (\<lambda>krow. map (\<lambda>qrow. map2 max krow qrow) m) h)) b) p"

definition create_masks :: "int list list \<Rightarrow> int list list \<Rightarrow> tensor4 \<times> tensor4 \<times> tensor4" where
  "create_masks inp tar =
     (let enc_padding_mask = create_padding_mask inp;
          dec_padding_mask = create_padding_mask inp;
          look_ahead_mask = create_look_ahead_mask (tf_shape1 tar);
          dec_target_padding_mask = create_padding_mask tar;
          combined_mask = tf_maximum dec_target_padding_mask look_ahead_mask
      in (enc_padding_mask, combined_mask, dec_padding_mask))"

subsection \<open>Collaborators of the decode loop\<close>

text \<open>
  The capabilities of a \<^verbatim>\<open>SubwordTextEncoder\<close> that the code uses: the attribute
  \<^verbatim>\<open>vocab_size\<close> and the methods \<^verbatim>\<open>encode\<close> and \<^verbatim>\<open>decode\<close>.
\<close>

record tokenizer =
  vocab_size :: int
  encode :: "string \<Rightarrow> int list"
  decode :: "int list \<Rightarrow> string"

text \<open>
  The trained model is a callable: encoder input, decoder input, the training flag
  and the three masks go in; the logits of shape \<open>(batch, seq_len, vocab)\<close> and the
  attention weights come out. The type of a logit is any linear order (\<^verbatim>\<open>nan\<close> is not
  modelled), the attention weights are opaque to the loop.
\<close>

type_synonym ('l, 'w) transformer =
  "int list list \<Rightarrow> int list list \<Rightarrow> bool \<Rightarrow> tensor4 \<Rightarrow> tensor4 \<Rightarrow> tensor4 \<Rightarrow> 'l list list list \<times> 'w"

text \<open>
  What can go wrong in \<^verbatim>\<open>evaluate\<close> and \<^verbatim>\<open>translate\<close>: the name
  \<^verbatim>\<open>attention_weights\<close> read before any assignment, a TensorFlow operation applied to
  a tensor of the wrong shape, the truth value of a tensor that is not a single
  element, and a failure of the plotting routine.
\<close>

datatype error = UnboundLocalError | InvalidArgumentError | ValueError | PlotError

text \<open>\<^verbatim>\<open>tf.expand_dims(x, 0)\<close> on a list: a batch of one row.\<close>

definition tf_expand_dims0 :: "'a list \<Rightarrow> 'a list list" where
  "tf_expand_dims0 x = [x]"

text \<open>\<^verbatim>\<open>tf.squeeze(t, axis=0)\<close>: the first axis must have size one.\<close>

definition tf_squeeze0 :: "'a list list \<Rightarrow> error + 'a list" where
  "tf_squeeze0 t = (case t of [r] \<Rightarrow> Inr r | _ \<Rightarrow> Inl InvalidArgumentError)"

text \<open>
  \<^verbatim>\<open>tf.argmax\<close> over one vector of logits: the index of a largest entry, the first one
  where several are equal (TensorFlow leaves the choice among equal entries open; no
  property below depends on it). An empty reduction axis is an error.
\<close>

fun argmax_from :: "'l::linorder \<Rightarrow> nat \<Rightarrow> nat \<Rightarrow> 'l list \<Rightarrow> nat" where
  "argmax_from best bi i [] = bi"
| "argmax_from best bi i (x # xs) =
     (if best < x then argmax_from x i (Suc i) xs else argmax_from best bi (Suc i) xs)"

definition tf_argmax :: "'l::linorder list \<Rightarrow> error + int" where
  "tf_argmax v = (case v of [] \<Rightarrow> Inl InvalidArgumentError
                  | x # xs \<Rightarrow> Inr (int (argmax_from x 0 1 xs)))"

text \<open>Running a list of fallible computations: the first error wins.\<close>

fun sequence_sum :: "('e + 'a) list \<Rightarrow> 'e + 'a list" where
  "sequence_sum [] = Inr []"
| "sequence_sum (x # xs) =
     (case x of Inl e \<Rightarrow> Inl e
      | Inr v \<Rightarrow> (case sequence_sum xs of Inl e \<Rightarrow> Inl e | Inr vs \<Rightarrow> Inr (v # vs)))"

text \<open>
  \<^verbatim>\<open>tf.cast(tf.argmax(predictions, axis=-1), tf.int32)\<close> on a tensor of shape
  \<open>(batch, k, vocab)\<close>: a tensor of ids of shape \<open>(batch, k)\<close>. An index into the
  vocabulary fits 32 bits, so the cast changes nothing.
\<close>

definition tf_argmax_last :: "'l::linorder list list list \<Rightarrow> error + int list list" where
  "tf_argmax_last t = sequence_sum (map (\<lambda>b. sequence_sum (map tf_argmax b)) t)"

text \<open>
  The truth value of a tensor, as the \<^verbatim>\<open>if\<close> statement takes it: defined for a tensor
  with exactly one element. A model that returns logits of shape \<open>(1, seq_len, vocab)\<close>
  with at least one position always yields such a tensor; every other shape is taken
  as an error here.
\<close>

definition tensor_bool :: "bool list list \<Rightarrow> error + bool" where
  "tensor_bool t = (case t of [[b]] \<Rightarrow> Inr b | _ \<Rightarrow> Inl ValueError)"

text \<open>
  \<^verbatim>\<open>tf.concat([a, b], axis=-1)\<close> on two tensors of rank two: they must have the same
  number of rows, which are joined pairwise.
\<close>

definition tf_concat_last :: "'a list list \<Rightarrow> 'a list list \<Rightarrow> error + 'a list list" where
  "tf_concat_last a b =
     (if length a = length b then Inr (map2 (@) a b) else Inl InvalidArgumentError)"

subsection \<open>Decode loop\<close>

text \<open>
  The first half of the loop body (lines 104 to 117): build the masks from the encoder
  input and the current decoder input, call the model in inference mode, keep the
  logits of the last position (\<^verbatim>\<open>predictions[:, -1:, :]\<close>) and take their argmax. The
  attention weights of the call are returned beside the predicted ids.
\<close>

definition predict ::
  "('l::linorder, 'w) transformer \<Rightarrow> int list list \<Rightarrow> int list list \<Rightarrow> (error + int list list) \<times> 'w"
where
  "predict transformer encoder_input output =
     (case create_masks encoder_input output of
        (enc_padding_mask, combined_mask, dec_padding_mask) \<Rightarrow>
     (case transformer encoder_input output False enc_padding_mask combined_mask dec_padding_mask of
        (predictions, attention_weights) \<Rightarrow>
     (let predictions' = map (\<lambda>p. drop (length p - 1) p) predictions;
          predicted_id = tf_argmax_last predictions'
      in (predicted_id, attention_weights))))"

text \<open>
  \<^verbatim>\<open>for i in range(max_length_pred)\<close> with the statement after the loop. The first
  argument counts the iterations that remain. The state is the tensor
  \<^verbatim>\<open>output\<close>, the variable \<^verbatim>\<open>attention_weights\<close> (\<open>None\<close> while it is unassigned)
  and the number of model invocations made so far, which is returned beside the
  result.

  Once the iterations are used up, line 126 evaluates \<^verbatim>\<open>tf.squeeze(output, axis=0)\<close> and
  then reads \<^verbatim>\<open>attention_weights\<close>, which raises \<^verbatim>\<open>UnboundLocalError\<close> if the body
  never ran.
\<close>

fun decode_loop ::
  "nat \<Rightarrow> ('l::linorder, 'w) transformer \<Rightarrow> tokenizer \<Rightarrow> int list list \<Rightarrow> int list list \<Rightarrow>
   'w option \<Rightarrow> nat \<Rightarrow> (error + int list \<times> 'w) \<times> nat"
where
  "decode_loop 0 transformer tokenizer_target encoder_input output aw calls =
     (case tf_squeeze0 output of
        Inl e \<Rightarrow> (Inl e, calls)
      | Inr r \<Rightarrow> (case aw of
                   None \<Rightarrow> (Inl UnboundLocalError, calls)
                 | Some attention_weights \<Rightarrow> (Inr (r, attention_weights), calls)))"
| "decode_loop (Suc n) transformer tokenizer_target encoder_input output aw calls =
     (case predict transformer encoder_input output of
        (Inl e, _) \<Rightarrow> (Inl e, Suc calls)
      | (Inr predicted_id, attention_weights) \<Rightarrow>
          (case tensor_bool (map (map (\<lambda>p. p = vocab_size tokenizer_target + 1)) predicted_id) of
             Inl e \<Rightarrow> (Inl e, Suc calls)
           | Inr True \<Rightarrow>
               (case tf_squeeze0 output of
                  Inl e \<Rightarrow> (Inl e, Suc calls)
                | Inr r \<Rightarrow> (Inr (r, attention_weights), Suc calls))
           | Inr False \<Rightarrow>
               (case tf_concat_last output predicted_id of
                  Inl e \<Rightarrow> (Inl e, Suc calls)
                | Inr output' \<Rightarrow>
                    decode_loop n transformer tokenizer_target encoder_input output'
                      (Some attention_weights) (Suc calls))))"

text \<open>
  \<^verbatim>\<open>evaluate\<close>: the encoder input is the encoded sentence between the source start
  and end sentinels, the decoder input starts as the target start sentinel alone, and
  \<^verbatim>\<open>range(max_length_pred)\<close> has \<open>nat max_length_pred\<close> elements (none for a
  bound of zero or below). The result is paired with the number of model invocations.
\<close>

definition evaluate ::
  "string \<Rightarrow> tokenizer \<Rightarrow> tokenizer \<Rightarrow> int \<Rightarrow> ('l::linorder, 'w) transformer \<Rightarrow>
   (error + int list \<times> 'w) \<times> nat"
where
  "evaluate inp_sentence tokenizer_source tokenizer_target max_length_pred transformer =
     (let start_token = [vocab_size tokenizer_source];
          end_token = [vocab_size tokenizer_source + 1];
          inp_sentence' = start_token @ encode tokenizer_source inp_sentence @ end_token;
          encoder_input = tf_expand_dims0 inp_sentence';
          decoder_input = [vocab_size tokenizer_target];
          output = tf_expand_dims0 decoder_input
      in decode_loop (nat max_length_pred) transformer tokenizer_target encoder_input output None 0)"

subsection \<open>Translate\<close>

text \<open>
  The argument of the final \<^verbatim>\<open>tokenizer_target.decode\<close> call (line 187):
  \<^verbatim>\<open>[i for i in result if i < tokenizer_target.vocab_size]\<close>.
\<close>

definition decode_arg :: "tokenizer \<Rightarrow> int list \<Rightarrow> int list" where
  "decode_arg tokenizer_target result = [i \<leftarrow> result. i < vocab_size tokenizer_target]"

text \<open>
  The plotting routine draws with matplotlib; its drawing is outside this embedding.
  It is a parameter here: given the attention weights, the sentence, the result ids
  and the layer name it either returns (\<open>None\<close>) or raises.
\<close>

type_synonym 'w plotter = "'w \<Rightarrow> string \<Rightarrow> int list \<Rightarrow> string \<Rightarrow> error option"

text \<open>
  \<^verbatim>\<open>translate\<close>: an error of \<^verbatim>\<open>evaluate\<close> propagates; otherwise the sentence is decoded
  first, the plot is drawn when a layer name is given, and the sentence is returned.
\<close>

definition translate ::
  "string \<Rightarrow> tokenizer \<Rightarrow> tokenizer \<Rightarrow> int \<Rightarrow> ('l::linorder, 'w) transformer \<Rightarrow> string \<Rightarrow>
   'w plotter \<Rightarrow> error + string"
where
  "translate inp_sentence tokenizer_source tokenizer_target max_length_pred transformer plot
       plot_attention_weights =
     (case fst (evaluate inp_sentence tokenizer_source tokenizer_target max_length_pred transformer) of
        Inl e \<Rightarrow> Inl e
      | Inr (result, attention_weights) \<Rightarrow>
          (let predicted_sentence = decode tokenizer_target (decode_arg tokenizer_target result)
           in if plot \<noteq> []
              then (case plot_attention_weights attention_weights inp_sentence result plot of
                      Some e \<Rightarrow> Inl e
                    | None \<Rightarrow> Inr predicted_sentence)
              else Inr predicted_sentence))"

subsection \<open>Stub collaborators for concrete runs\<close>

text \<open>
  A tokenizer with a given vocabulary size that encodes a character as its code and
  decodes an id as the character with that code.
\<close>

definition stub_tokenizer :: "int \<Rightarrow> tokenizer" where
  "stub_tokenizer v = \<lparr>vocab_size = v, encode = map of_char, decode = map char_of\<rparr>"

text \<open>The logits over \<open>n\<close> ids that favour the id \<open>k\<close>.\<close>

definition one_hot :: "nat \<Rightarrow> nat \<Rightarrow> int list" where
  "one_hot n k = map (\<lambda>i. if i = k then 1 else 0) [0..<n]"

text \<open>
  A model that follows a script: called with a decoder input of \<open>k\<close> tokens it favours,
  at every position, the id \<open>script ! (k - 1)\<close>, and the id \<open>dflt\<close> once the script is
  used up. Its attention weights are the number of decoder positions it was called
  with, which tells the calls apart.
\<close>

definition stub_model :: "nat \<Rightarrow> nat list \<Rightarrow> nat \<Rightarrow> (int, nat) transformer" where
  "stub_model n script dflt =
     (\<lambda>encoder_input output training enc_padding_mask combined_mask dec_padding_mask.
        (map (\<lambda>row. map (\<lambda>_. one_hot n (if length row - 1 < length script
                                         then script ! (length row - 1) else dflt)) row)
             output,
         tf_shape1 output))"

section \<open>Properties of the mask builder\<close>

lemma create_padding_mask_nth:
  assumes "b < length s"
  shows "create_padding_mask s ! b = [[map (\<lambda>x. if x = 0 then 1 else 0) (s ! b)]]"
  using assms by (simp add: create_padding_mask_def)

lemma band_part_ones_nth:
  assumes "i < n" "j < n"
  shows "band_part (tf_ones n n) lo up ! i ! j = (if in_band lo up i j then 1 else 0)"
  using assms by (simp add: band_part_def tf_ones_def nth_enumerate_eq)

lemma length_band_part: "length (band_part t lo up) = length t"
  by (simp add: band_part_def)

lemma length_band_part_row:
  "i < length t \<Longrightarrow> length (band_part t lo up ! i) = length (t ! i)"
  by (simp add: band_part_def nth_enumerate_eq)

lemma create_look_ahead_mask_nth:
  assumes "i < n" "j < n"
  shows "create_look_ahead_mask n ! i ! j = (if i < j then 1 else 0)"
proof -
  have len: "length (band_part (tf_ones n n) (- 1) 0) = n"
    by (simp add: length_band_part tf_ones_def)
  have row: "length (band_part (tf_ones n n) (- 1) 0 ! i) = n"
    using assms by (simp add: length_band_part_row tf_ones_def)
  have "create_look_ahead_mask n ! i ! j = 1 - band_part (tf_ones n n) (- 1) 0 ! i ! j"
    using assms len row by (simp add: create_look_ahead_mask_def)
  also have "\<dots> = (if in_band (- 1) 0 i j then 0 else 1)"
    using assms by (simp add: band_part_ones_nth)
  also have "\<dots> = (if i < j then 1 else 0)"
    by (auto simp: in_band_def)
  finally show ?thesis .
qed

lemma length_create_look_ahead_mask: "length (create_look_ahead_mask n) = n"
  by (simp add: create_look_ahead_mask_def length_band_part tf_ones_def)

lemma length_create_look_ahead_mask_row:
  "i < n \<Longrightarrow> length (create_look_ahead_mask n ! i) = n"
  by (simp add: create_look_ahead_mask_def length_band_part length_band_part_row tf_ones_def)


lemma tf_shape1_rect:
  assumes "\<forall>r\<in>set t. length r = L" "b < length t"
  shows "tf_shape1 t = L"
  using assms by (cases t) (auto simp: tf_shape1_def)

lemma tf_maximum_nth:
  assumes "b < length s"
  shows "tf_maximum (create_padding_mask s) m ! b =
         [map (\<lambda>qrow. map2 max (map (\<lambda>x. if x = 0 then 1 else 0) (s ! b)) qrow) m]"
  using assms by (simp add: tf_maximum_def create_padding_mask_def)

text \<open>
  Claim C5. For every batch of integer sequences \<open>s\<close>, every row \<open>b\<close> and every position
  \<open>i\<close> of it, the padding mask is \<open>1\<close> at that position if and only if \<open>s[b][i] = 0\<close>,
  and \<open>0\<close> otherwise. The mask has one entry per batch row, and each entry wraps the
  row of mask values in two axes of size one (heads and query positions). The function
  is a pure function of its argument.
\<close>

theorem create_padding_mask_iff:
  assumes "b < length s" and "i < length (s ! b)"
  shows "length (create_padding_mask s) = length s
       \<and> (\<exists>row. create_padding_mask s ! b = [[row]] \<and> length row = length (s ! b))
       \<and> create_padding_mask s ! b ! 0 ! 0 ! i = (if s ! b ! i = 0 then 1 else 0)
       \<and> (create_padding_mask s ! b ! 0 ! 0 ! i = 1 \<longleftrightarrow> s ! b ! i = 0)"
  using assms by (simp add: create_padding_mask_nth) (simp add: create_padding_mask_def)

theorem create_padding_mask_iff_witness:
  "(1::nat) < length [[3, 0, 5], [0, 0, 1::int]] \<and> (2::nat) < length ([[3, 0, 5], [0, 0, 1::int]] ! 1)
   \<and> create_padding_mask [[3, 0, 5], [0, 0, 1]] ! 1 ! 0 ! 0 ! 2 = 0
   \<and> create_padding_mask [[3, 0, 5], [0, 0, 1]] ! 1 ! 0 ! 0 ! 1 = 1"
proof -
  have b: "(1::nat) < length [[3, 0, 5], [0, 0, 1::int]]" by simp
  have i: "(2::nat) < length ([[3, 0, 5], [0, 0, 1::int]] ! 1)" by simp
  have j: "(1::nat) < length ([[3, 0, 5], [0, 0, 1::int]] ! 1)" by simp
  show ?thesis
    using b i create_padding_mask_iff [OF b i] create_padding_mask_iff [OF b j] by simp
qed

text \<open>
  Claim C6. For every size \<open>n\<close> and all indices \<open>i, j < n\<close>, the look-ahead mask of size
  \<open>n\<close> is an \<open>n\<close> by \<open>n\<close> matrix whose entry at \<open>(i, j)\<close> is \<open>1\<close> if and only if
  \<open>j > i\<close>, and \<open>0\<close> otherwise: position \<open>i\<close> may attend to positions up to \<open>i\<close> only.
\<close>

theorem create_look_ahead_mask_iff:
  assumes "i < n" and "j < n"
  shows "length (create_look_ahead_mask n) = n
       \<and> length (create_look_ahead_mask n ! i) = n
       \<and> create_look_ahead_mask n ! i ! j = (if j > i then 1 else 0)
       \<and> (create_look_ahead_mask n ! i ! j = 1 \<longleftrightarrow> j > i)"
  using assms
  by (simp add: create_look_ahead_mask_nth length_create_look_ahead_mask
      length_create_look_ahead_mask_row)

theorem create_look_ahead_mask_iff_witness:
  "(1::nat) < 3 \<and> (2::nat) < 3 \<and> create_look_ahead_mask 3 ! 1 ! 2 = 1
   \<and> (0::nat) < 3 \<and> create_look_ahead_mask 3 ! 1 ! 0 = 0
   \<and> create_look_ahead_mask 3 ! 1 ! 1 = 0"
proof -
  have a: "(1::nat) < 3" and b: "(2::nat) < 3" and c: "(0::nat) < 3" by simp_all
  show ?thesis
    using a b c create_look_ahead_mask_iff [OF a b] create_look_ahead_mask_iff [OF a c]
      create_look_ahead_mask_iff [OF a a]
    by simp
qed

text \<open>
  Claim C4. For every encoder input and every (rectangular) decoder input of width \<open>L\<close>,
  the combined mask returned by \<^verbatim>\<open>create_masks\<close> is, entry by entry, the maximum of the
  decoder input's padding mask and the look-ahead mask of size \<open>L\<close>: it is \<open>1\<close> at
  \<open>(i, j)\<close> if and only if one of the two is. The encoder padding mask and the decoder
  (cross-attention) padding mask are both the padding mask of the encoder input.
\<close>

theorem create_masks_combined:
  assumes rect: "\<forall>r\<in>set tar. length r = L"
    and b: "b < length tar" and i: "i < L" and j: "j < L"
  shows "fst (create_masks inp tar) = create_padding_mask inp
       \<and> snd (snd (create_masks inp tar)) = create_padding_mask inp
       \<and> length (fst (snd (create_masks inp tar))) = length tar
       \<and> fst (snd (create_masks inp tar)) ! b ! 0 ! i ! j =
           max (create_padding_mask tar ! b ! 0 ! 0 ! j) (create_look_ahead_mask L ! i ! j)
       \<and> (fst (snd (create_masks inp tar)) ! b ! 0 ! i ! j = 1 \<longleftrightarrow>
            create_padding_mask tar ! b ! 0 ! 0 ! j = 1 \<or> create_look_ahead_mask L ! i ! j = 1)
       \<and> (fst (snd (create_masks inp tar)) ! b ! 0 ! i ! j = 0 \<longleftrightarrow>
            create_padding_mask tar ! b ! 0 ! 0 ! j = 0 \<and> create_look_ahead_mask L ! i ! j = 0)"
proof -
  let ?c = "fst (snd (create_masks inp tar))"
  have w: "tf_shape1 tar = L" using rect b by (rule tf_shape1_rect)
  have c: "?c = tf_maximum (create_padding_mask tar) (create_look_ahead_mask L)"
    by (simp add: create_masks_def Let_def w)
  have lb: "length (tar ! b) = L" using rect b by simp
  have la: "create_look_ahead_mask L ! i ! j = (if i < j then 1 else 0)"
    using i j by (rule create_look_ahead_mask_nth)
  have pm: "create_padding_mask tar ! b ! 0 ! 0 ! j = (if tar ! b ! j = 0 then 1 else 0)"
    using b j lb by (simp add: create_padding_mask_nth)
  have "?c ! b ! 0 ! i ! j =
        map2 max (map (\<lambda>x. if x = 0 then 1 else 0) (tar ! b)) (create_look_ahead_mask L ! i) ! j"
    using b i by (simp add: c tf_maximum_nth length_create_look_ahead_mask)
  also have "\<dots> = max (if tar ! b ! j = 0 then 1 else 0) (create_look_ahead_mask L ! i ! j)"
    using i j lb by (simp add: length_create_look_ahead_mask_row)
  finally have cv: "?c ! b ! 0 ! i ! j =
      max (create_padding_mask tar ! b ! 0 ! 0 ! j) (create_look_ahead_mask L ! i ! j)"
    by (simp add: pm)
  have len: "length ?c = length tar"
    by (simp add: c tf_maximum_def create_padding_mask_def)
  have e: "fst (create_masks inp tar) = create_padding_mask inp"
    and d: "snd (snd (create_masks inp tar)) = create_padding_mask inp"
    by (simp_all add: create_masks_def Let_def)
  show ?thesis
    unfolding cv using e d len by (auto simp: pm la)
qed

theorem create_masks_combined_witness:
  "list_all (\<lambda>r. length r = 3) [[7, 0, 2::int]] \<and> (0::nat) < length [[7, 0, 2::int]]
   \<and> fst (snd (create_masks [[1, 2, 0]] [[7, 0, 2]])) ! 0 ! 0 ! 2 ! 1 = 1
   \<and> fst (snd (create_masks [[1, 2, 0]] [[7, 0, 2]])) ! 0 ! 0 ! 0 ! 2 = 1
   \<and> fst (snd (create_masks [[1, 2, 0]] [[7, 0, 2]])) ! 0 ! 0 ! 2 ! 2 = 0
   \<and> fst (create_masks [[1, 2, 0]] [[7, 0, 2]]) = [[[[0, 0, 1]]]]
   \<and> snd (snd (create_masks [[1, 2, 0]] [[7, 0, 2]])) = [[[[0, 0, 1]]]]"
proof -
  have r: "\<forall>r\<in>set [[7, 0, 2::int]]. length r = 3" by simp
  have b: "(0::nat) < length [[7, 0, 2::int]]" by simp
  have i0: "(0::nat) < 3" and i1: "(1::nat) < 3" and i2: "(2::nat) < 3" by simp_all
  have la: "create_look_ahead_mask 3 = [[0, 1, 1], [0, 0, 1], [0, 0, 0]]"
    by code_simp
  have pm: "create_padding_mask [[7, 0, 2]] = [[[[0, 1, 0]]]]"
    and pi: "create_padding_mask [[1, 2, 0]] = [[[[0, 0, 1]]]]"
    by (simp_all add: create_padding_mask_def)
  show ?thesis
    using r b create_masks_combined [OF r b i2 i1, of "[[1, 2, 0]]"]
      create_masks_combined [OF r b i0 i2, of "[[1, 2, 0]]"]
      create_masks_combined [OF r b i2 i2, of "[[1, 2, 0]]"]
    by (simp add: la pm pi)
qed

section \<open>Properties of the decode loop\<close>


lemma tensor_bool_map_Inr:
  assumes "tensor_bool (map (map f) t) = Inr b"
  obtains p where "t = [[p]]" and "b = f p"
  using assms by (auto simp: tensor_bool_def split: list.splits)

lemma tensor_bool_single: "tensor_bool [[b]] = Inr b"
  by (simp add: tensor_bool_def)

lemma decode_loop_stop:
  assumes "fst (predict tr enc [row]) = Inr [[vocab_size tt + 1]]"
  shows "decode_loop (Suc n) tr tt enc [row] aw calls =
         (Inr (row, snd (predict tr enc [row])), Suc calls)"
  using assms
  by (cases "predict tr enc [row]") (simp add: tensor_bool_single tf_squeeze0_def)

lemma decode_loop_continue:
  assumes "fst (predict tr enc [row]) = Inr [[p]]" and "p \<noteq> vocab_size tt + 1"
  shows "decode_loop (Suc n) tr tt enc [row] aw calls =
         decode_loop n tr tt enc [row @ [p]] (Some (snd (predict tr enc [row]))) (Suc calls)"
  using assms
  by (cases "predict tr enc [row]") (simp add: tensor_bool_single tf_concat_last_def)

lemma decode_loop_Suc_cases:
  obtains (err) e where "decode_loop (Suc n) tr tt enc [row] aw calls = (Inl e, Suc calls)"
  | (stop) "fst (predict tr enc [row]) = Inr [[vocab_size tt + 1]]"
  | (cont) p where "fst (predict tr enc [row]) = Inr [[p]]" and "p \<noteq> vocab_size tt + 1"
proof (cases "predict tr enc [row]")
  case (Pair r a)
  show ?thesis
  proof (cases r)
    case (Inl e)
    with Pair have "decode_loop (Suc n) tr tt enc [row] aw calls = (Inl e, Suc calls)"
      by simp
    then show ?thesis by (rule err)
  next
    case (Inr pid)
    show ?thesis
    proof (cases "tensor_bool (map (map (\<lambda>p. p = vocab_size tt + 1)) pid)")
      case (Inl e)
      with Pair \<open>r = Inr pid\<close>
      have "decode_loop (Suc n) tr tt enc [row] aw calls = (Inl e, Suc calls)"
        by simp
      then show ?thesis by (rule err)
    next
      case b: (Inr b)
      then obtain p where p: "pid = [[p]]" "b = (p = vocab_size tt + 1)"
        by (rule tensor_bool_map_Inr)
      show ?thesis
      proof (cases "p = vocab_size tt + 1")
        case True
        with Pair \<open>r = Inr pid\<close> p show ?thesis by (intro stop) simp
      next
        case False
        with Pair \<open>r = Inr pid\<close> p show ?thesis by (intro cont[of p]) simp_all
      qed
    qed
  qed
qed

lemma decode_loop_calls:
  "snd (decode_loop n tr tt enc out aw calls) \<le> calls + n"
proof (induction n arbitrary: out aw calls)
  case 0
  show ?case by (simp split: sum.splits option.splits)
next
  case (Suc n)
  have le: "snd (decode_loop n tr tt enc out' aw' (Suc calls)) \<le> Suc (calls + n)" for out' aw'
    using Suc.IH [of out' aw' "Suc calls"] by simp
  show ?case
    by (auto split: prod.splits sum.splits bool.splits simp: le)
qed

lemma decode_loop_result:
  assumes "decode_loop n tr tt enc [row] aw calls = (Inr (seq, a), c)"
  shows "calls \<le> c \<and> c \<le> calls + n
       \<and> length row \<le> length seq \<and> length seq \<le> length row + n
       \<and> take (length row) seq = row
       \<and> (vocab_size tt + 1 \<notin> set row \<longrightarrow> vocab_size tt + 1 \<notin> set seq)
       \<and> (fst (predict tr enc [seq]) = Inr [[vocab_size tt + 1]]
            \<and> a = snd (predict tr enc [seq]) \<and> c = Suc (calls + (length seq - length row))
          \<or> c = calls + n \<and> length seq = length row + n)"
  using assms
proof (induction n arbitrary: row aw calls)
  case 0
  then show ?case
    by (auto simp: tf_squeeze0_def split: option.splits)
next
  case (Suc n)
  show ?case
  proof (cases rule: decode_loop_Suc_cases [of n tr tt enc row aw calls])
    case (err e)
    with Suc.prems show ?thesis by simp
  next
    case stop
    have "seq = row" "a = snd (predict tr enc [row])" "c = Suc calls"
      using Suc.prems unfolding decode_loop_stop [OF stop] by auto
    with stop show ?thesis by simp
  next
    case (cont p)
    have "decode_loop n tr tt enc [row @ [p]] (Some (snd (predict tr enc [row]))) (Suc calls)
          = (Inr (seq, a), c)"
      using Suc.prems unfolding decode_loop_continue [OF cont] .
    from Suc.IH [OF this] cont(2) show ?thesis
      by (auto simp: take_Suc_conv_app_nth dest: arg_cong [where f = "take (length row)"])
  qed
qed


lemma decode_loop_script:
  assumes "\<forall>i<length ps. fst (predict tr enc [row @ take i ps]) = Inr [[ps ! i]]
                         \<and> ps ! i \<noteq> vocab_size tt + 1"
    and "fst (predict tr enc [row @ ps]) = Inr [[vocab_size tt + 1]]"
    and "length ps < n"
  shows "decode_loop n tr tt enc [row] aw calls =
         (Inr (row @ ps, snd (predict tr enc [row @ ps])), Suc (calls + length ps))"
  using assms
proof (induction ps arbitrary: row n aw calls)
  case Nil
  then obtain m where "n = Suc m" by (cases n) auto
  with Nil.prems(2) show ?case by (simp only: decode_loop_stop append_Nil2) simp
next
  case (Cons p ps)
  from Cons.prems(3) obtain m where n: "n = Suc m" and m: "length ps < m" by (cases n) auto
  from Cons.prems(1) have p: "fst (predict tr enc [row]) = Inr [[p]]" "p \<noteq> vocab_size tt + 1"
    by fastforce+
  have step: "\<forall>i<length ps. fst (predict tr enc [(row @ [p]) @ take i ps]) = Inr [[ps ! i]]
                          \<and> ps ! i \<noteq> vocab_size tt + 1"
  proof (intro allI impI)
    fix i assume "i < length ps"
    then have "Suc i < length (p # ps)" by simp
    with Cons.prems(1) have "fst (predict tr enc [row @ take (Suc i) (p # ps)]) = Inr [[(p # ps) ! Suc i]]
        \<and> (p # ps) ! Suc i \<noteq> vocab_size tt + 1" by blast
    then show "fst (predict tr enc [(row @ [p]) @ take i ps]) = Inr [[ps ! i]]
        \<and> ps ! i \<noteq> vocab_size tt + 1" by simp
  qed
  from Cons.prems(2) have last: "fst (predict tr enc [(row @ [p]) @ ps]) = Inr [[vocab_size tt + 1]]"
    by simp
  have "decode_loop n tr tt enc [row] aw calls =
        decode_loop m tr tt enc [row @ [p]] (Some (snd (predict tr enc [row]))) (Suc calls)"
    unfolding n by (rule decode_loop_continue [OF p])
  also have "\<dots> = (Inr ((row @ [p]) @ ps, snd (predict tr enc [(row @ [p]) @ ps])),
                    Suc (Suc calls + length ps))"
    by (rule Cons.IH [OF step last m])
  finally show ?case by simp
qed

lemma decode_loop_well_shaped:
  assumes "\<forall>out. out \<noteq> [] \<longrightarrow> (\<exists>p. fst (predict tr enc [out]) = Inr [[p]])"
    and "row \<noteq> []" and "0 < n \<or> aw \<noteq> None"
  shows "\<exists>seq a c. decode_loop n tr tt enc [row] aw calls = (Inr (seq, a), c)"
  using assms(2,3)
proof (induction n arbitrary: row aw calls)
  case 0
  then show ?case by (auto simp: tf_squeeze0_def)
next
  case (Suc n)
  from assms(1) Suc.prems(1) obtain p where p: "fst (predict tr enc [row]) = Inr [[p]]" by blast
  show ?case
  proof (cases "p = vocab_size tt + 1")
    case True
    with p have "fst (predict tr enc [row]) = Inr [[vocab_size tt + 1]]" by simp
    from decode_loop_stop [OF this] show ?thesis by blast
  next
    case False
    have "\<exists>seq a c. decode_loop n tr tt enc [row @ [p]] (Some (snd (predict tr enc [row]))) (Suc calls)
            = (Inr (seq, a), c)"
      by (rule Suc.IH) simp_all
    then show ?thesis unfolding decode_loop_continue [OF p False] .
  qed
qed

lemma evaluate_decode_loop:
  "evaluate s ts tt max_length tr =
   decode_loop (nat max_length) tr tt [[vocab_size ts] @ encode ts s @ [vocab_size ts + 1]]
     [[vocab_size tt]] None 0"
  by (simp add: evaluate_def tf_expand_dims0_def)


lemma predict_stub_model:
  assumes "out \<noteq> []"
  shows "predict (stub_model n script d) enc [out] =
         (tf_argmax_last [[one_hot n (if length out - 1 < length script
                                      then script ! (length out - 1) else d)]],
          length out)"
proof -
  have "length out - (length out - Suc 0) = Suc 0"
    using assms by (cases out) simp_all
  then have "drop (length out - Suc 0) (replicate (length out) c) = [c]" for c :: "int list"
    by (simp only: drop_replicate) simp
  then show ?thesis
    by (simp add: predict_def stub_model_def tf_shape1_def map_replicate_const
        split: prod.splits)
qed

lemma argmax_one_hot_4_0: "tf_argmax_last [[one_hot 4 0]] = Inr [[0]]"
  by code_simp

lemma argmax_one_hot_4_3: "tf_argmax_last [[one_hot 4 3]] = Inr [[3]]"
  by code_simp

lemma argmax_one_hot_12_5: "tf_argmax_last [[one_hot 12 5]] = Inr [[5]]"
  by code_simp

lemma argmax_one_hot_12_7: "tf_argmax_last [[one_hot 12 7]] = Inr [[7]]"
  by code_simp

lemma argmax_one_hot_12_11: "tf_argmax_last [[one_hot 12 11]] = Inr [[11]]"
  by code_simp

lemma evaluate_Inr_decode_loop:
  assumes "fst (evaluate s ts tt max_length tr) = Inr (seq, aw)"
  shows "decode_loop (nat max_length) tr tt [[vocab_size ts] @ encode ts s @ [vocab_size ts + 1]]
           [[vocab_size tt]] None 0 = (Inr (seq, aw), snd (evaluate s ts tt max_length tr))"
  using assms unfolding evaluate_decode_loop [symmetric] by (simp add: prod_eq_iff)

text \<open>
  Claim C1. Let the greedy argmax over the last-position logits select the ids \<open>ps\<close> one
  after the other, none of them the end sentinel, and then, at an iteration within the
  bound \<open>max_length\<close>, the end sentinel \<open>vocab_size + 1\<close> of the target tokenizer. Then
  \<^verbatim>\<open>evaluate\<close> stops at that iteration: it returns the start sentinel followed by \<open>ps\<close>,
  without the end sentinel, together with the attention weights of that last model
  call, after \<open>length ps + 1\<close> model calls. With \<open>ps = []\<close>: a model that selects the end
  sentinel on the first step yields the one-token output that holds only the target
  start sentinel.
\<close>

theorem evaluate_stops_at_end_sentinel:
  assumes "int (length ps) < max_length"
    and "\<forall>i<length ps.
           fst (predict tr [[vocab_size ts] @ encode ts s @ [vocab_size ts + 1]]
                  [[vocab_size tt] @ take i ps]) = Inr [[ps ! i]]
           \<and> ps ! i \<noteq> vocab_size tt + 1"
    and "fst (predict tr [[vocab_size ts] @ encode ts s @ [vocab_size ts + 1]]
                [[vocab_size tt] @ ps]) = Inr [[vocab_size tt + 1]]"
  shows "evaluate s ts tt max_length tr =
         (Inr ([vocab_size tt] @ ps,
               snd (predict tr [[vocab_size ts] @ encode ts s @ [vocab_size ts + 1]]
                      [[vocab_size tt] @ ps])),
          Suc (length ps))"
proof -
  from assms(1) have "length ps < nat max_length" by simp
  from decode_loop_script [OF assms(2) assms(3) this, of None 0]
  show ?thesis by (simp only: evaluate_decode_loop add_0)
qed

theorem evaluate_stops_at_end_sentinel_witness:
  "evaluate ''hello'' (stub_tokenizer 300) (stub_tokenizer 2) 5 (stub_model 4 [] 3) = (Inr ([2], 1), 1)
   \<and> evaluate ''hello'' (stub_tokenizer 300) (stub_tokenizer 10) 8 (stub_model 12 [5, 7] 11)
       = (Inr ([10, 5, 7], 3), 3)"
proof -
  have a1: "int (length ([]::int list)) < 5" by simp
  have a2: "\<forall>i<length ([]::int list).
           fst (predict (stub_model 4 [] 3)
                  [[vocab_size (stub_tokenizer 300)] @ encode (stub_tokenizer 300) ''hello''
                    @ [vocab_size (stub_tokenizer 300) + 1]]
                  [[vocab_size (stub_tokenizer 2)] @ take i []]) = Inr [[[] ! i]]
           \<and> [] ! i \<noteq> vocab_size (stub_tokenizer 2) + 1" by simp
  have a3: "fst (predict (stub_model 4 [] 3)
                  [[vocab_size (stub_tokenizer 300)] @ encode (stub_tokenizer 300) ''hello''
                    @ [vocab_size (stub_tokenizer 300) + 1]]
                  [[vocab_size (stub_tokenizer 2)] @ []]) = Inr [[vocab_size (stub_tokenizer 2) + 1]]"
    by (simp add: predict_stub_model argmax_one_hot_4_3 stub_tokenizer_def)
  have b1: "int (length [5, 7::int]) < 8" by simp
  have b2: "\<forall>i<length [5, 7::int].
           fst (predict (stub_model 12 [5, 7] 11)
                  [[vocab_size (stub_tokenizer 300)] @ encode (stub_tokenizer 300) ''hello''
                    @ [vocab_size (stub_tokenizer 300) + 1]]
                  [[vocab_size (stub_tokenizer 10)] @ take i [5, 7]]) = Inr [[[5, 7] ! i]]
           \<and> [5, 7] ! i \<noteq> vocab_size (stub_tokenizer 10) + 1"
    by (simp add: predict_stub_model argmax_one_hot_12_5 argmax_one_hot_12_7 stub_tokenizer_def
        less_Suc_eq all_conj_distrib)
  have b3: "fst (predict (stub_model 12 [5, 7] 11)
                  [[vocab_size (stub_tokenizer 300)] @ encode (stub_tokenizer 300) ''hello''
                    @ [vocab_size (stub_tokenizer 300) + 1]]
                  [[vocab_size (stub_tokenizer 10)] @ [5, 7]]) = Inr [[vocab_size (stub_tokenizer 10) + 1]]"
    by (simp add: predict_stub_model argmax_one_hot_12_11 stub_tokenizer_def)
  show ?thesis
    using evaluate_stops_at_end_sentinel [OF a1 a2 a3] evaluate_stops_at_end_sentinel [OF b1 b2 b3]
    by (simp add: predict_stub_model stub_tokenizer_def)
qed


lemma decode_loop_exhaust:
  assumes "\<forall>i<length ps. fst (predict tr enc [row @ take i ps]) = Inr [[ps ! i]]
                         \<and> ps ! i \<noteq> vocab_size tt + 1"
    and "ps = [] \<longrightarrow> aw = Some a0"
  shows "decode_loop (length ps) tr tt enc [row] aw calls =
         (Inr (row @ ps, if ps = [] then a0 else snd (predict tr enc [row @ butlast ps])),
          calls + length ps)"
  using assms
proof (induction ps arbitrary: row aw a0 calls)
  case Nil
  then show ?case by (simp add: tf_squeeze0_def)
next
  case (Cons p ps)
  let ?a1 = "snd (predict tr enc [row])"
  from Cons.prems(1) have p: "fst (predict tr enc [row]) = Inr [[p]]" "p \<noteq> vocab_size tt + 1"
    by fastforce+
  have step: "\<forall>i<length ps. fst (predict tr enc [(row @ [p]) @ take i ps]) = Inr [[ps ! i]]
                          \<and> ps ! i \<noteq> vocab_size tt + 1"
  proof (intro allI impI)
    fix i assume "i < length ps"
    then have "Suc i < length (p # ps)" by simp
    with Cons.prems(1) have "fst (predict tr enc [row @ take (Suc i) (p # ps)]) = Inr [[(p # ps) ! Suc i]]
        \<and> (p # ps) ! Suc i \<noteq> vocab_size tt + 1" by blast
    then show "fst (predict tr enc [(row @ [p]) @ take i ps]) = Inr [[ps ! i]]
        \<and> ps ! i \<noteq> vocab_size tt + 1" by simp
  qed
  have some: "ps = [] \<longrightarrow> Some ?a1 = Some ?a1" by simp
  have "decode_loop (length (p # ps)) tr tt enc [row] aw calls =
        decode_loop (length ps) tr tt enc [row @ [p]] (Some ?a1) (Suc calls)"
    using decode_loop_continue [OF p, of "length ps" aw calls] by simp
  also have "\<dots> = (Inr ((row @ [p]) @ ps,
                         if ps = [] then ?a1 else snd (predict tr enc [(row @ [p]) @ butlast ps])),
                    Suc calls + length ps)"
    by (rule Cons.IH [OF step some])
  finally show ?case by simp
qed

lemma never_end_run:
  assumes "\<forall>out. out \<noteq> [] \<longrightarrow> (\<exists>p. fst (predict tr enc [out]) = Inr [[p]] \<and> p \<noteq> e)"
    and "row \<noteq> []"
  shows "\<exists>ps. length ps = n \<and>
           (\<forall>i<length ps. fst (predict tr enc [row @ take i ps]) = Inr [[ps ! i]] \<and> ps ! i \<noteq> e)"
proof (induction n)
  case 0
  show ?case by simp
next
  case (Suc n)
  then obtain ps where l: "length ps = n"
    and r: "\<forall>i<length ps. fst (predict tr enc [row @ take i ps]) = Inr [[ps ! i]] \<and> ps ! i \<noteq> e"
    by blast
  from assms have "\<exists>p. fst (predict tr enc [row @ ps]) = Inr [[p]] \<and> p \<noteq> e" by simp
  then obtain p where p: "fst (predict tr enc [row @ ps]) = Inr [[p]]" "p \<noteq> e" by blast
  have "\<forall>i<length (ps @ [p]). fst (predict tr enc [row @ take i (ps @ [p])]) = Inr [[(ps @ [p]) ! i]]
          \<and> (ps @ [p]) ! i \<noteq> e"
  proof (intro allI impI)
    fix i assume "i < length (ps @ [p])"
    then consider "i < length ps" | "i = length ps" by fastforce
    then show "fst (predict tr enc [row @ take i (ps @ [p])]) = Inr [[(ps @ [p]) ! i]]
          \<and> (ps @ [p]) ! i \<noteq> e"
    proof cases
      case 1
      with r show ?thesis by (simp add: nth_append)
    next
      case 2
      with p show ?thesis by simp
    qed
  qed
  with l show ?case by (intro exI [of _ "ps @ [p]"]) simp
qed

text \<open>
  Claim C3. Let \<open>max_length\<close> be positive and let the greedy argmax select, in the
  \<open>max_length\<close> iterations of the loop, the ids \<open>ps\<close> one after the other, none of them
  the target end sentinel. Then the loop is exhausted and \<^verbatim>\<open>evaluate\<close> returns, without
  error, the full accumulated sequence, the start sentinel followed by \<open>ps\<close>, of
  exactly \<open>max_length + 1\<close> tokens (six for \<open>max_length = 5\<close>), together with the
  attention weights of the last model call, after \<open>max_length\<close> model calls. What the
  model would select beyond the bound does not matter. In particular, for a model
  whose argmax never equals the end sentinel, whatever the (non-empty) decoder input,
  there are such ids and \<^verbatim>\<open>evaluate\<close> returns them in this way.
\<close>

theorem evaluate_never_end_sentinel:
  assumes "0 < max_length"
  shows "(\<forall>ps. int (length ps) = max_length
            \<and> (\<forall>i<length ps.
                  fst (predict tr [[vocab_size ts] @ encode ts s @ [vocab_size ts + 1]]
                         [[vocab_size tt] @ take i ps]) = Inr [[ps ! i]]
                  \<and> ps ! i \<noteq> vocab_size tt + 1)
          \<longrightarrow> evaluate s ts tt max_length tr =
                (Inr ([vocab_size tt] @ ps,
                      snd (predict tr [[vocab_size ts] @ encode ts s @ [vocab_size ts + 1]]
                             [[vocab_size tt] @ butlast ps])),
                 nat max_length)
              \<and> int (length ([vocab_size tt] @ ps)) = max_length + 1
              \<and> (max_length = 5 \<longrightarrow> length ([vocab_size tt] @ ps) = 6))
       \<and> ((\<forall>out. out \<noteq> [] \<longrightarrow>
              (\<exists>p. fst (predict tr [[vocab_size ts] @ encode ts s @ [vocab_size ts + 1]] [out])
                     = Inr [[p]] \<and> p \<noteq> vocab_size tt + 1))
          \<longrightarrow> (\<exists>ps. int (length ps) = max_length
                 \<and> (\<forall>i<length ps.
                       fst (predict tr [[vocab_size ts] @ encode ts s @ [vocab_size ts + 1]]
                              [[vocab_size tt] @ take i ps]) = Inr [[ps ! i]]
                       \<and> ps ! i \<noteq> vocab_size tt + 1)
                 \<and> evaluate s ts tt max_length tr =
                     (Inr ([vocab_size tt] @ ps,
                           snd (predict tr [[vocab_size ts] @ encode ts s @ [vocab_size ts + 1]]
                                  [[vocab_size tt] @ butlast ps])),
                      nat max_length)))"
proof -
  let ?enc = "[[vocab_size ts] @ encode ts s @ [vocab_size ts + 1]]"
  let ?run = "\<lambda>ps. \<forall>i<length ps.
      fst (predict tr ?enc [[vocab_size tt] @ take i ps]) = Inr [[ps ! i]]
      \<and> ps ! i \<noteq> vocab_size tt + 1"
  have main: "evaluate s ts tt max_length tr =
                (Inr ([vocab_size tt] @ ps, snd (predict tr ?enc [[vocab_size tt] @ butlast ps])),
                 nat max_length)"
    if l: "int (length ps) = max_length" and r: "?run ps" for ps
  proof -
    from l assms have ne: "ps \<noteq> []" by auto
    then have none: "ps = [] \<longrightarrow> None = Some (snd (predict tr ?enc [[vocab_size tt]]))" by simp
    from l have n: "nat max_length = length ps" by simp
    from decode_loop_exhaust [OF r none, of 0] ne
    show ?thesis by (simp only: evaluate_decode_loop n if_False add_0)
  qed
  have first: "\<forall>ps. int (length ps) = max_length \<and> ?run ps \<longrightarrow>
      evaluate s ts tt max_length tr =
        (Inr ([vocab_size tt] @ ps, snd (predict tr ?enc [[vocab_size tt] @ butlast ps])),
         nat max_length)
      \<and> int (length ([vocab_size tt] @ ps)) = max_length + 1
      \<and> (max_length = 5 \<longrightarrow> length ([vocab_size tt] @ ps) = 6)"
  proof (intro allI impI)
    fix ps assume a: "int (length ps) = max_length \<and> ?run ps"
    then have "evaluate s ts tt max_length tr =
        (Inr ([vocab_size tt] @ ps, snd (predict tr ?enc [[vocab_size tt] @ butlast ps])),
         nat max_length)" by (intro main) simp_all
    moreover from a have "int (length ([vocab_size tt] @ ps)) = max_length + 1" by simp
    moreover from a have "max_length = 5 \<longrightarrow> length ([vocab_size tt] @ ps) = 6" by auto
    ultimately show "evaluate s ts tt max_length tr =
        (Inr ([vocab_size tt] @ ps, snd (predict tr ?enc [[vocab_size tt] @ butlast ps])),
         nat max_length)
      \<and> int (length ([vocab_size tt] @ ps)) = max_length + 1
      \<and> (max_length = 5 \<longrightarrow> length ([vocab_size tt] @ ps) = 6)" by (intro conjI)
  qed
  have second: "\<exists>ps. int (length ps) = max_length \<and> ?run ps
      \<and> evaluate s ts tt max_length tr =
          (Inr ([vocab_size tt] @ ps, snd (predict tr ?enc [[vocab_size tt] @ butlast ps])),
           nat max_length)"
    if never: "\<forall>out. out \<noteq> [] \<longrightarrow>
        (\<exists>p. fst (predict tr ?enc [out]) = Inr [[p]] \<and> p \<noteq> vocab_size tt + 1)"
  proof -
    have "[vocab_size tt] \<noteq> []" by simp
    from never_end_run [OF never this, of "nat max_length"] obtain ps
      where l: "length ps = nat max_length" and r: "?run ps" by blast
    from l assms have li: "int (length ps) = max_length" by simp
    from main [OF li r] li r show ?thesis by blast
  qed
  from first second show ?thesis by blast
qed

lemma argmax_one_hot_12_9: "tf_argmax_last [[one_hot 12 9]] = Inr [[9]]"
  by code_simp

theorem evaluate_never_end_sentinel_witness:
  "evaluate ''hello'' (stub_tokenizer 300) (stub_tokenizer 10) 3 (stub_model 12 [5, 7, 9] 11)
     = (Inr ([10, 5, 7, 9], 3), 3)
   \<and> evaluate ''hello'' (stub_tokenizer 300) (stub_tokenizer 2) 5
       (stub_model 4 [0, 0, 0, 0, 0, 0, 0] 3)
     = (Inr ([2, 0, 0, 0, 0, 0], 5), 5)
   \<and> length [2, 0, 0, 0, 0, 0 :: int] = 6"
proof -
  let ?enc = "[[vocab_size (stub_tokenizer 300)] @ encode (stub_tokenizer 300) ''hello''
                @ [vocab_size (stub_tokenizer 300) + 1]]"
  have a: "(0::int) < 3" by simp
  have l: "int (length [5, 7, 9 :: int]) = 3" by simp
  have r: "\<forall>i<length [5, 7, 9 :: int].
             fst (predict (stub_model 12 [5, 7, 9] 11) ?enc
                    [[vocab_size (stub_tokenizer 10)] @ take i [5, 7, 9]]) = Inr [[[5, 7, 9] ! i]]
             \<and> [5, 7, 9] ! i \<noteq> vocab_size (stub_tokenizer 10) + 1"
    by (simp add: predict_stub_model argmax_one_hot_12_5 argmax_one_hot_12_7 argmax_one_hot_12_9
        stub_tokenizer_def less_Suc_eq all_conj_distrib)
  from evaluate_never_end_sentinel [OF a, of "stub_model 12 [5, 7, 9] 11" "stub_tokenizer 300"
      "''hello''" "stub_tokenizer 10"] l r
  have e1: "evaluate ''hello'' (stub_tokenizer 300) (stub_tokenizer 10) 3 (stub_model 12 [5, 7, 9] 11)
     = (Inr ([vocab_size (stub_tokenizer 10)] @ [5, 7, 9],
             snd (predict (stub_model 12 [5, 7, 9] 11) ?enc
                    [[vocab_size (stub_tokenizer 10)] @ butlast [5, 7, 9]])), nat 3)"
    by blast
  have b: "(0::int) < 5" by simp
  have l2: "int (length [0, 0, 0, 0, 0 :: int]) = 5" by simp
  have r2: "\<forall>i<length [0, 0, 0, 0, 0 :: int].
             fst (predict (stub_model 4 [0, 0, 0, 0, 0, 0, 0] 3) ?enc
                    [[vocab_size (stub_tokenizer 2)] @ take i [0, 0, 0, 0, 0]])
               = Inr [[[0, 0, 0, 0, 0] ! i]]
             \<and> [0, 0, 0, 0, 0] ! i \<noteq> vocab_size (stub_tokenizer 2) + 1"
    by (simp add: predict_stub_model argmax_one_hot_4_0 stub_tokenizer_def less_Suc_eq
        all_conj_distrib)
  from evaluate_never_end_sentinel [OF b, of "stub_model 4 [0, 0, 0, 0, 0, 0, 0] 3"
      "stub_tokenizer 300" "''hello''" "stub_tokenizer 2"] l2 r2
  have e2: "evaluate ''hello'' (stub_tokenizer 300) (stub_tokenizer 2) 5
              (stub_model 4 [0, 0, 0, 0, 0, 0, 0] 3)
     = (Inr ([vocab_size (stub_tokenizer 2)] @ [0, 0, 0, 0, 0],
             snd (predict (stub_model 4 [0, 0, 0, 0, 0, 0, 0] 3) ?enc
                    [[vocab_size (stub_tokenizer 2)] @ butlast [0, 0, 0, 0, 0]])), nat 5)"
    by blast
  from e1 e2 show ?thesis
    by (simp add: predict_stub_model stub_tokenizer_def)
qed

text \<open>
  Claim C2. For a positive \<open>max_length\<close>, \<^verbatim>\<open>evaluate\<close> makes at most \<open>max_length\<close> model
  invocations, whatever the model does. A token sequence it returns has between \<open>1\<close>
  and \<open>max_length + 1\<close> tokens, and it was returned either because the model selected
  the end sentinel on it or because the iteration bound was reached. The function is
  total (the recursion is on the number of remaining iterations), and for a model
  that returns one id per call it does return a sequence.
\<close>

theorem evaluate_terminates_bounded:
  assumes "0 < max_length"
  shows "int (snd (evaluate s ts tt max_length tr)) \<le> max_length
       \<and> (\<forall>seq aw. fst (evaluate s ts tt max_length tr) = Inr (seq, aw) \<longrightarrow>
            1 \<le> length seq \<and> int (length seq) \<le> max_length + 1
            \<and> (fst (predict tr [[vocab_size ts] @ encode ts s @ [vocab_size ts + 1]] [seq])
                 = Inr [[vocab_size tt + 1]]
               \<and> snd (evaluate s ts tt max_length tr) = length seq
               \<or> int (snd (evaluate s ts tt max_length tr)) = max_length
               \<and> int (length seq) = max_length + 1))
       \<and> ((\<forall>out. out \<noteq> [] \<longrightarrow>
              (\<exists>p. fst (predict tr [[vocab_size ts] @ encode ts s @ [vocab_size ts + 1]] [out])
                     = Inr [[p]]))
            \<longrightarrow> (\<exists>seq aw. fst (evaluate s ts tt max_length tr) = Inr (seq, aw)))"
proof (intro conjI allI impI)
  let ?enc = "[[vocab_size ts] @ encode ts s @ [vocab_size ts + 1]]"
  show "int (snd (evaluate s ts tt max_length tr)) \<le> max_length"
    using decode_loop_calls [of "nat max_length" tr tt ?enc "[[vocab_size tt]]" None 0] assms
    by (simp add: evaluate_decode_loop)
next
  let ?enc = "[[vocab_size ts] @ encode ts s @ [vocab_size ts + 1]]"
  fix seq aw
  assume r: "fst (evaluate s ts tt max_length tr) = Inr (seq, aw)"
  from r have "decode_loop (nat max_length) tr tt ?enc [[vocab_size tt]] None 0
             = (Inr (seq, aw), snd (evaluate s ts tt max_length tr))"
    by (rule evaluate_Inr_decode_loop)
  from decode_loop_result [OF this] assms
  show "1 \<le> length seq" 
    and "int (length seq) \<le> max_length + 1"
    and "fst (predict tr ?enc [seq]) = Inr [[vocab_size tt + 1]]
               \<and> snd (evaluate s ts tt max_length tr) = length seq
               \<or> int (snd (evaluate s ts tt max_length tr)) = max_length
               \<and> int (length seq) = max_length + 1"
    by auto
next
  let ?enc = "[[vocab_size ts] @ encode ts s @ [vocab_size ts + 1]]"
  assume ws: "\<forall>out. out \<noteq> [] \<longrightarrow> (\<exists>p. fst (predict tr ?enc [out]) = Inr [[p]])"
  have "\<exists>seq a c. decode_loop (nat max_length) tr tt ?enc [[vocab_size tt]] None 0 = (Inr (seq, a), c)"
    using assms by (intro decode_loop_well_shaped [OF ws]) simp_all
  then show "\<exists>seq aw. fst (evaluate s ts tt max_length tr) = Inr (seq, aw)"
    by (simp only: evaluate_decode_loop) auto
qed

text \<open>
  Claim C10. No element of a token sequence returned by \<^verbatim>\<open>evaluate\<close> equals the target
  end sentinel \<open>vocab_size + 1\<close>; the sequence begins with the start sentinel.
\<close>

theorem evaluate_no_end_sentinel:
  assumes "fst (evaluate s ts tt max_length tr) = Inr (seq, aw)"
  shows "vocab_size tt + 1 \<notin> set seq \<and> take 1 seq = [vocab_size tt]"
proof -
  let ?enc = "[[vocab_size ts] @ encode ts s @ [vocab_size ts + 1]]"
  from assms have "decode_loop (nat max_length) tr tt ?enc [[vocab_size tt]] None 0
             = (Inr (seq, aw), snd (evaluate s ts tt max_length tr))"
    by (rule evaluate_Inr_decode_loop)
  from decode_loop_result [OF this] show ?thesis by simp
qed


lemma run_never_end:
  "evaluate ''hello'' (stub_tokenizer 300) (stub_tokenizer 2) 5 (stub_model 4 [] 0)
     = (Inr ([2, 0, 0, 0, 0, 0], 5), 5)"
  by code_simp

lemma run_script:
  "evaluate ''hello'' (stub_tokenizer 300) (stub_tokenizer 10) 8 (stub_model 12 [5, 7] 11)
     = (Inr ([10, 5, 7], 3), 3)"
  by code_simp

lemma run_empty_sentence:
  "evaluate [] (stub_tokenizer 300) (stub_tokenizer 2) 5 (stub_model 4 [] 0)
     = (Inr ([2, 0, 0, 0, 0, 0], 5), 5)"
  by code_simp

theorem evaluate_terminates_bounded_witness:
  "int (snd (evaluate ''hello'' (stub_tokenizer 300) (stub_tokenizer 2) 5 (stub_model 4 [] 0))) \<le> 5
   \<and> fst (evaluate ''hello'' (stub_tokenizer 300) (stub_tokenizer 2) 5 (stub_model 4 [] 0))
       = Inr ([2, 0, 0, 0, 0, 0], 5)
   \<and> 1 \<le> length [2, 0, 0, 0, 0, 0 :: int] \<and> int (length [2, 0, 0, 0, 0, 0 :: int]) \<le> 5 + 1"
proof -
  have a: "(0::int) < 5" by simp
  from evaluate_terminates_bounded [OF a, of "''hello''" "stub_tokenizer 300" "stub_tokenizer 2"
      "stub_model 4 [] 0"]
  have "int (snd (evaluate ''hello'' (stub_tokenizer 300) (stub_tokenizer 2) 5 (stub_model 4 [] 0))) \<le> 5"
    by (rule conjunct1)
  then show ?thesis by (simp add: run_never_end)
qed

theorem evaluate_no_end_sentinel_witness:
  "fst (evaluate ''hello'' (stub_tokenizer 300) (stub_tokenizer 10) 8 (stub_model 12 [5, 7] 11))
     = Inr ([10, 5, 7], 3)
   \<and> vocab_size (stub_tokenizer 10) + 1 \<notin> set [10, 5, 7]
   \<and> vocab_size (stub_tokenizer 10) + 1 = 11"
proof -
  have r: "fst (evaluate ''hello'' (stub_tokenizer 300) (stub_tokenizer 10) 8 (stub_model 12 [5, 7] 11))
     = Inr ([10, 5, 7], 3)" by (simp add: run_script)
  from evaluate_no_end_sentinel [OF r] r show ?thesis by (simp add: stub_tokenizer_def)
qed

section \<open>Properties of translate\<close>

text \<open>
  Claim C9. When \<^verbatim>\<open>evaluate\<close> returns the sequence \<open>result\<close>, \<^verbatim>\<open>translate\<close> gives the
  target tokenizer's \<^verbatim>\<open>decode\<close> exactly the ids of \<open>result\<close> that are strictly less
  than the target \<open>vocab_size\<close>, in their order, and returns what \<^verbatim>\<open>decode\<close> makes of
  them (always when no plot is asked for, and whenever it returns at all). The start
  sentinel \<open>vocab_size\<close> and every id at or beyond it are left out. With a target
  \<open>vocab_size\<close> of \<open>10\<close>, the ids \<open>[10, 5, 7, 11]\<close> are cut down to \<open>[5, 7]\<close>.
\<close>

theorem translate_decode_arg:
  assumes "fst (evaluate s ts tt max_length tr) = Inr (result, aw)"
  shows "(plot = [] \<longrightarrow>
            translate s ts tt max_length tr plot pl = Inr (decode tt (decode_arg tt result)))
       \<and> (\<forall>txt. translate s ts tt max_length tr plot pl = Inr txt \<longrightarrow>
            txt = decode tt (decode_arg tt result))
       \<and> decode_arg tt result = filter (\<lambda>i. i < vocab_size tt) result
       \<and> vocab_size tt \<notin> set (decode_arg tt result)
       \<and> (\<forall>i\<in>set (decode_arg tt result). i < vocab_size tt)
       \<and> (vocab_size tt = 10 \<longrightarrow> decode_arg tt [10, 5, 7, 11] = [5, 7])"
  using assms by (auto simp: translate_def decode_arg_def Let_def split: option.splits if_splits)

theorem translate_decode_arg_witness:
  "fst (evaluate ''hello'' (stub_tokenizer 300) (stub_tokenizer 10) 8 (stub_model 12 [5, 7] 11))
     = Inr ([10, 5, 7], 3)
   \<and> translate ''hello'' (stub_tokenizer 300) (stub_tokenizer 10) 8 (stub_model 12 [5, 7] 11) []
       (\<lambda>_ _ _ _. None) = Inr (decode (stub_tokenizer 10) [5, 7])
   \<and> decode_arg (stub_tokenizer 10) [10, 5, 7] = [5, 7]
   \<and> decode_arg (stub_tokenizer 10) [10, 5, 7, 11] = [5, 7]"
proof -
  have r: "fst (evaluate ''hello'' (stub_tokenizer 300) (stub_tokenizer 10) 8 (stub_model 12 [5, 7] 11))
     = Inr ([10, 5, 7], 3)" by (simp add: run_script)
  have v: "vocab_size (stub_tokenizer 10) = 10" by (simp add: stub_tokenizer_def)
  from translate_decode_arg [OF r, of "[]" "\<lambda>_ _ _ _. None"] r v show ?thesis
    by simp
qed

section \<open>Invalid input\<close>

text \<open>
  Claim C8, as stated, fails: \<^verbatim>\<open>evaluate\<close> does not look at the sentence. An empty
  sentence, which the tokenizer encodes as no ids, is decoded like any other one; here
  with a model that never selects the end sentinel and \<open>max_length = 5\<close>.
\<close>

theorem evaluate_empty_sentence_counterexample:
  "encode (stub_tokenizer 300) [] = []
   \<and> evaluate [] (stub_tokenizer 300) (stub_tokenizer 2) 5 (stub_model 4 [] 0)
       = (Inr ([2, 0, 0, 0, 0, 0], 5), 5)"
proof
  show "encode (stub_tokenizer 300) [] = []" by (simp add: stub_tokenizer_def)
  show "evaluate [] (stub_tokenizer 300) (stub_tokenizer 2) 5 (stub_model 4 [] 0)
       = (Inr ([2, 0, 0, 0, 0, 0], 5), 5)" by (rule run_empty_sentence)
qed

text \<open>
  Claim C8, amended. \<^verbatim>\<open>evaluate\<close> does not validate the source sentence. An empty
  sentence is no error: it is encoded and decoded like any other sentence, and with a
  positive \<open>max_length\<close> and a model that returns one id per call, \<^verbatim>\<open>evaluate\<close>
  returns a token sequence for it, of between \<open>1\<close> and \<open>max_length + 1\<close> tokens,
  beginning with the start sentinel.
\<close>

theorem evaluate_empty_sentence_decoded:
  assumes "0 < max_length"
    and "\<forall>out. out \<noteq> [] \<longrightarrow>
           (\<exists>p. fst (predict tr [[vocab_size ts] @ encode ts [] @ [vocab_size ts + 1]] [out])
                  = Inr [[p]])"
  shows "\<exists>seq aw. fst (evaluate [] ts tt max_length tr) = Inr (seq, aw)
           \<and> 1 \<le> length seq \<and> int (length seq) \<le> max_length + 1
           \<and> take 1 seq = [vocab_size tt]"
proof -
  let ?enc = "[[vocab_size ts] @ encode ts [] @ [vocab_size ts + 1]]"
  have "\<exists>seq a c. decode_loop (nat max_length) tr tt ?enc [[vocab_size tt]] None 0 = (Inr (seq, a), c)"
    using assms(1) by (intro decode_loop_well_shaped [OF assms(2)]) simp_all
  then obtain seq a c
    where r: "decode_loop (nat max_length) tr tt ?enc [[vocab_size tt]] None 0 = (Inr (seq, a), c)"
    by blast
  then have e: "fst (evaluate [] ts tt max_length tr) = Inr (seq, a)"
    by (simp only: evaluate_decode_loop fst_conv)
  from decode_loop_result [OF r] assms(1)
  have "1 \<le> length seq" "int (length seq) \<le> max_length + 1" "take 1 seq = [vocab_size tt]"
    by auto
  with e show ?thesis by blast
qed

theorem evaluate_empty_sentence_decoded_witness:
  "fst (evaluate [] (stub_tokenizer 300) (stub_tokenizer 2) 5 (stub_model 4 [] 0))
     = Inr ([2, 0, 0, 0, 0, 0], 5)
   \<and> 1 \<le> length [2, 0, 0, 0, 0, 0 :: int] \<and> int (length [2, 0, 0, 0, 0, 0 :: int]) \<le> 5 + 1"
proof -
  have a: "(0::int) < 5" by simp
  have ws: "\<forall>out. out \<noteq> [] \<longrightarrow>
           (\<exists>p. fst (predict (stub_model 4 [] 0)
                        [[vocab_size (stub_tokenizer 300)] @ encode (stub_tokenizer 300) []
                          @ [vocab_size (stub_tokenizer 300) + 1]] [out]) = Inr [[p]])"
    by (simp add: predict_stub_model argmax_one_hot_4_0)
  from evaluate_empty_sentence_decoded [OF a ws, of "stub_tokenizer 2"]
  obtain seq :: "int list" and aw :: nat
    where "fst (evaluate [] (stub_tokenizer 300) (stub_tokenizer 2) 5 (stub_model 4 [] 0))
             = Inr (seq, aw)" by blast
  then show ?thesis by (auto simp: run_empty_sentence)
qed

end
